theory Spec2Isabelle
  imports Main "HOL-Library.Sublist"
begin

section \<open>Strings and the regular expression of types.go\<close>

text \<open>
  A Go string is a sequence of bytes; it is modelled as a \<open>string\<close> (a list of 8-bit
  characters). The pattern of \<open>reGPUDriverErrorPattern\<close> is made of ASCII literals and
  ASCII character classes only. Go's matcher reads the input rune by rune, but a byte of a
  multi-byte or invalid UTF-8 sequence never decodes to an ASCII rune, and an ASCII byte
  is never part of a longer sequence, so matching byte by byte gives the same result.

  The expression uses four constructs of Go's RE2 syntax: literal text, a one-or-more
  repetition of a character class (greedy), a numbered capture group and concatenation.
\<close>

type_synonym charclass = "char list"

text \<open>
  A character class is the list of the bytes it contains: \<open>\d\<close> is \<open>[0-9]\<close> and \<open>\s\<close> is
  \<open>[\t\n\f\r ]\<close> in Go (both ASCII only), and \<open>[0-9a-fA-F:]\<close> is written out.
\<close>

definition perl_d :: charclass where
  "perl_d = ''0123456789''"

definition perl_s :: charclass where
  "perl_s = [CHR 0x09, CHR 0x0A, CHR 0x0C, CHR 0x0D, CHR '' '']"

definition hex_colon :: charclass where
  "hex_colon = ''0123456789abcdefABCDEF:''"

datatype Regexp =
    Literal string
  | Plus charclass
  | Capture nat Regexp
  | Concat "Regexp list"

text \<open>
  types.go, lines 23-24:
  \<^verbatim>\<open>nvidia-modeset: ERROR: GPU:(\d+): Error while waiting for GPU progress: (0x[0-9a-fA-F:]+)\s+(\d+:\d+:\d+:\d+)\<close>
\<close>

definition reGPUDriverErrorPattern :: Regexp where
  "reGPUDriverErrorPattern = Concat
     [Literal ''nvidia-modeset: ERROR: GPU:'',
      Capture 1 (Plus perl_d),
      Literal '': Error while waiting for GPU progress: '',
      Capture 2 (Concat [Literal ''0x'', Plus hex_colon]),
      Plus perl_s,
      Capture 3 (Concat [Plus perl_d, Literal '':'', Plus perl_d, Literal '':'',
                         Plus perl_d, Literal '':'', Plus perl_d])]"

text \<open>
  Go compiles an expression to a program and runs it with leftmost-first semantics: of
  all matches it returns the one a backtracking search finds first, starting at the
  leftmost position, preferring a longer repetition for a greedy operator. The program is
  a list of instructions: match one byte, match a greedy run of a class, or store the
  current position in a capture slot (slots \<open>2 * i\<close> and \<open>2 * i + 1\<close> hold the start and
  the end of group \<open>i\<close>; group 0 is the whole match).
\<close>

datatype Inst =
    InstRune char
  | InstPlus charclass
  | InstCapture nat

fun compile :: "Regexp \<Rightarrow> Inst list" where
  "compile (Literal w) = map InstRune w"
| "compile (Plus cls) = [InstPlus cls]"
| "compile (Capture i r) = InstCapture (2 * i) # compile r @ [InstCapture (2 * i + 1)]"
| "compile (Concat rs) = concat (map compile rs)"

definition prog :: "Regexp \<Rightarrow> Inst list" where
  "prog re = InstCapture 0 # compile re @ [InstCapture 1]"

fun NumSubexp :: "Regexp \<Rightarrow> nat" where
  "NumSubexp (Literal w) = 0"
| "NumSubexp (Plus cls) = 0"
| "NumSubexp (Capture i r) = 1 + NumSubexp r"
| "NumSubexp (Concat rs) = sum_list (map NumSubexp rs)"

type_synonym caps = "nat \<rightharpoonup> nat"

text \<open>
  \<open>backtrack is s pos cap\<close> runs the instructions \<open>is\<close> on the rest \<open>s\<close> of the input,
  which begins at offset \<open>pos\<close>. A greedy run first tries to take one more byte of the
  class and falls back to the rest of the program only if that fails.
\<close>

fun backtrack :: "Inst list \<Rightarrow> string \<Rightarrow> nat \<Rightarrow> caps \<Rightarrow> caps option" where
  "backtrack [] s pos cap = Some cap"
| "backtrack (InstCapture k # is) s pos cap = backtrack is s pos (cap(k \<mapsto> pos))"
| "backtrack (InstRune c # is) [] pos cap = None"
| "backtrack (InstRune c # is) (x # xs) pos cap =
     (if x = c then backtrack is xs (pos + 1) cap else None)"
| "backtrack (InstPlus cls # is) [] pos cap = None"
| "backtrack (InstPlus cls # is) (x # xs) pos cap =
     (if x \<in> set cls
      then (case backtrack (InstPlus cls # is) xs (pos + 1) cap of
              Some r \<Rightarrow> Some r
            | None \<Rightarrow> backtrack is xs (pos + 1) cap)
      else None)"

text \<open>The unanchored search: the first start offset, from the left, with a match.\<close>

fun search :: "Inst list \<Rightarrow> string \<Rightarrow> nat \<Rightarrow> caps option" where
  "search is [] pos = backtrack is [] pos Map.empty"
| "search is (x # xs) pos =
     (case backtrack is (x # xs) pos Map.empty of
        Some r \<Rightarrow> Some r
      | None \<Rightarrow> search is xs (pos + 1))"

definition slice :: "string \<Rightarrow> nat \<Rightarrow> nat \<Rightarrow> string" where
  "slice s a b = take (b - a) (drop a s)"

text \<open>
  \<open>FindStringSubmatch\<close> returns nil (the empty list) when there is no match, and
  otherwise one string for the whole match and one for each group, the empty string for
  a group that took no part in the match.
\<close>

definition FindStringSubmatch :: "Regexp \<Rightarrow> string \<Rightarrow> string list" where
  "FindStringSubmatch re s =
     (case search (prog re) s 0 of
        None \<Rightarrow> []
      | Some cap \<Rightarrow>
          map (\<lambda>i. case (cap (2 * i), cap (2 * i + 1)) of
                      (Some a, Some b) \<Rightarrow> slice s a b
                    | _ \<Rightarrow> [])
              [0 ..< 1 + NumSubexp re])"

section \<open>The data model\<close>

text \<open>types.go: the handler and the parsed event.\<close>

record GPUDriverErrorHandler =
  nodeName :: string
  defaultAgentName :: string
  defaultComponentClass :: string
  checkName :: string

record gpuDriverErrorEvent =
  gpuID :: string
  errorCode :: string
  errorDetails :: string
  message :: string

text \<open>
  The protobuf messages of package \<open>protos\<close> are declared outside the two source files;
  the records below hold the fields that gpudriver_handler.go sets (every other field
  keeps its zero value). Of the enumeration \<open>RecommendedAction\<close> only \<open>RESTART_BM\<close>
  is named by the code; the other members are kept as their numbers. The field \<open>Version\<close>
  of the container \<open>HealthEvents\<close> is \<open>EventsVersion\<close> here, since the event has a field
  of the same name.
\<close>

datatype RecommendedAction = RESTART_BM | OtherAction int

record Entity =
  EntityType :: string
  EntityValue :: string

type_synonym timestamp = int

record HealthEvent =
  Version :: nat
  Agent :: string
  CheckName :: string
  ComponentClass :: string
  GeneratedTimestamp :: timestamp
  EntitiesImpacted :: "Entity list"
  Message :: string
  IsFatal :: bool
  IsHealthy :: bool
  NodeName :: string
  RecommendedAction :: RecommendedAction
  ErrorCode :: "string list"

record HealthEvents =
  EventsVersion :: nat
  Events :: "HealthEvent list"

datatype error = Error string

text \<open>
  What the methods read and write besides their arguments: the handler object behind the
  receiver pointer (never nil: \<open>NewGPUDriverErrorHandler\<close> always returns an object), the
  two Prometheus counter vectors and the log. The clock read by \<open>time.Now()\<close> is an
  argument of the call.
\<close>

record slog_record =
  slog_msg :: string
  slog_attrs :: "(string \<times> string) list"

record Sys =
  handler :: GPUDriverErrorHandler
  gpuDriverErrorCounterMetric :: "string list \<Rightarrow> nat"
  gpuDriverErrorsReportedMetric :: "string list \<Rightarrow> nat"
  slog :: "slog_record list"

text \<open>
  Modelled from the spec: the declarations of \<open>gpuDriverErrorCounterMetric\<close> and
  \<open>gpuDriverErrorsReportedMetric\<close> are not in the source files; the spec describes them
  as a per-node counter and a per-node-per-GPU-index counter, so each is a map from the
  label values to a count, and \<open>WithLabelValues(...).Inc()\<close> adds one.
\<close>

definition Inc :: "(string list \<Rightarrow> nat) \<Rightarrow> string list \<Rightarrow> (string list \<Rightarrow> nat)" where
  "Inc vec labels = vec(labels := vec labels + 1)"

section \<open>gpudriver_handler.go\<close>

definition NewGPUDriverErrorHandler ::
  "string \<Rightarrow> string \<Rightarrow> string \<Rightarrow> string \<Rightarrow> GPUDriverErrorHandler option \<times> error option" where
  "NewGPUDriverErrorHandler nodeName' defaultAgentName' defaultComponentClass' checkName' =
     (Some \<lparr>nodeName = nodeName',
            defaultAgentName = defaultAgentName',
            defaultComponentClass = defaultComponentClass',
            checkName = checkName'\<rparr>, None)"

definition parseGPUDriverError :: "GPUDriverErrorHandler \<Rightarrow> string \<Rightarrow> gpuDriverErrorEvent option" where
  "parseGPUDriverError h msg =
     (let matches = FindStringSubmatch reGPUDriverErrorPattern msg in
      if length matches < 4 then None
      else Some \<lparr>gpuID = matches ! 1,
                 errorCode = matches ! 2,
                 errorDetails = matches ! 3,
                 message = msg\<rparr>)"

definition createHealthEventFromError ::
  "gpuDriverErrorEvent \<Rightarrow> timestamp \<Rightarrow> Sys \<Rightarrow> HealthEvents \<times> Sys" where
  "createHealthEventFromError event now s =
     (let h = handler s;
          s1 = s\<lparr>gpuDriverErrorsReportedMetric :=
                   Inc (gpuDriverErrorsReportedMetric s) [nodeName h, gpuID event]\<rparr>;
          msg = ''GPU '' @ gpuID event @ '': nvidia-modeset driver error detected. ''
                @ ''Error code: '' @ errorCode event @ '', Details: '' @ errorDetails event @ ''. ''
                @ ''This indicates the GPU driver is not coming up properly. ''
                @ ''nvidia-driver-daemonset and device-plugin daemonset may be crashing. ''
                @ ''Original message: '' @ message event;
          healthEvent = \<lparr>Version = 1,
                         Agent = defaultAgentName h,
                         CheckName = checkName h,
                         ComponentClass = defaultComponentClass h,
                         GeneratedTimestamp = now,
                         EntitiesImpacted = [\<lparr>EntityType = ''GPU'', EntityValue = gpuID event\<rparr>],
                         Message = msg,
                         IsFatal = True,
                         IsHealthy = False,
                         NodeName = nodeName h,
                         RecommendedAction = RESTART_BM,
                         ErrorCode = [''GPU_DRIVER_ERROR'']\<rparr>
      in (\<lparr>EventsVersion = 1, Events = [healthEvent]\<rparr>, s1))"

definition ProcessLine ::
  "string \<Rightarrow> timestamp \<Rightarrow> Sys \<Rightarrow> (HealthEvents option \<times> error option) \<times> Sys" where
  "ProcessLine msg now s =
     (case parseGPUDriverError (handler s) msg of
        None \<Rightarrow> ((None, None), s)
      | Some event \<Rightarrow>
          (let h = handler s;
               s1 = s\<lparr>gpuDriverErrorCounterMetric :=
                        Inc (gpuDriverErrorCounterMetric s) [nodeName h]\<rparr>;
               s2 = s1\<lparr>slog := slog s1 @
                        [\<lparr>slog_msg = ''GPU driver error detected'',
                          slog_attrs = [(''gpu_id'', gpuID event),
                                        (''error_code'', errorCode event),
                                        (''node'', nodeName h)]\<rparr>]\<rparr>;
               (events, s3) = createHealthEventFromError event now s2
           in ((Some events, None), s3)))"

section \<open>The callers of the handler\<close>

text \<open>
  The handler the tests build, \<open>NewGPUDriverErrorHandler("test-node", "test-agent", "GPU",
  "test-check")\<close>, in a process that has counted and logged nothing yet.
\<close>

definition test_handler :: GPUDriverErrorHandler where
  "test_handler = \<lparr>nodeName = ''test-node'', defaultAgentName = ''test-agent'',
                    defaultComponentClass = ''GPU'', checkName = ''test-check''\<rparr>"

definition test_sys :: Sys where
  "test_sys = \<lparr>handler = test_handler,
                gpuDriverErrorCounterMetric = (\<lambda>labels. 0),
                gpuDriverErrorsReportedMetric = (\<lambda>labels. 0),
                slog = []\<rparr>"

text \<open>Three of the lines the tests feed to the handler.\<close>

definition test_line :: string where
  "test_line = ''nvidia-modeset: ERROR: GPU:2: Error while waiting for GPU progress: 0x0000c77d:0 2:0:4048:4040''"

definition other_line :: string where
  "other_line = ''Some other log message''"

definition partial_line :: string where
  "partial_line = ''nvidia-modeset: ERROR: GPU:0: Some other error''"

text \<open>
  A caller feeds the handler one line after the other; each call reads the clock anew.
  \<open>ProcessLines\<close> collects what the calls return.
\<close>

fun ProcessLines ::
  "(string \<times> timestamp) list \<Rightarrow> Sys \<Rightarrow> (HealthEvents option \<times> error option) list \<times> Sys" where
  "ProcessLines [] s = ([], s)"
| "ProcessLines ((line, now) # calls) s =
     (let (r, s') = ProcessLine line now s;
          (rs, s'') = ProcessLines calls s'
      in (r # rs, s''))"

text \<open>Two results are compared up to the generation time of their events.\<close>

definition erase_timestamp :: "HealthEvents \<Rightarrow> HealthEvents" where
  "erase_timestamp evs = evs\<lparr>Events := map (\<lambda>ev. ev\<lparr>GeneratedTimestamp := 0\<rparr>) (Events evs)\<rparr>"

section \<open>The failure signature\<close>

text \<open>
  The signature as the specification writes it:
  \<^verbatim>\<open>nvidia-modeset: ERROR: GPU:<digits>: Error while waiting for GPU progress: <hex>[:<digits>] <d>:<d>:<d>:<d>\<close>
\<close>

definition lit_prefix :: string where
  "lit_prefix = ''nvidia-modeset: ERROR: GPU:''"

definition lit_phrase :: string where
  "lit_phrase = '': Error while waiting for GPU progress: ''"

definition numeric :: "string \<Rightarrow> bool" where
  "numeric w \<longleftrightarrow> w \<noteq> [] \<and> set w \<subseteq> set ''0123456789''"

definition hexadecimal :: "string \<Rightarrow> bool" where
  "hexadecimal w \<longleftrightarrow> w \<noteq> [] \<and> set w \<subseteq> set ''0123456789abcdefABCDEF''"

definition sub_index :: "string option \<Rightarrow> string" where
  "sub_index sub = (case sub of None \<Rightarrow> [] | Some k \<Rightarrow> '':'' @ k)"

definition error_code :: "string \<Rightarrow> string option \<Rightarrow> string" where
  "error_code hex sub = ''0x'' @ hex @ sub_index sub"

text \<open>
  \<open>is_error_code c\<close>: the text \<open>c\<close> is \<open>0x\<close>, hexadecimal digits and then nothing or a
  colon and a numeric sub-index: \<open><hex>[:<digits>]\<close>.
\<close>

definition is_error_code :: "string \<Rightarrow> bool" where
  "is_error_code c =
     (case c of
        a # b # body \<Rightarrow>
          a = CHR ''0'' \<and> b = CHR ''x'' \<and>
          (let hex = takeWhile (\<lambda>x. x \<noteq> CHR '':'') body;
               sub = dropWhile (\<lambda>x. x \<noteq> CHR '':'') body
           in hexadecimal hex \<and> (sub = [] \<or> numeric (tl sub)))
      | _ \<Rightarrow> False)"

definition detail :: "string \<Rightarrow> string \<Rightarrow> string \<Rightarrow> string \<Rightarrow> string" where
  "detail d1 d2 d3 d4 = d1 @ '':'' @ d2 @ '':'' @ d3 @ '':'' @ d4"

definition signature_line :: "string \<Rightarrow> string \<Rightarrow> string \<Rightarrow> string" where
  "signature_line n c d = lit_prefix @ n @ lit_phrase @ c @ '' '' @ d"

text \<open>
  The structure the pattern itself asks for: the two literal texts, a numeric index, the
  characters \<open>0x\<close> and a non-empty run \<open>cs\<close> of hexadecimal digits and colons, a non-empty
  run \<open>ws\<close> of white space, and four numeric fields separated by colons.
\<close>

definition well_shaped ::
  "string \<Rightarrow> string \<Rightarrow> string \<Rightarrow> string \<Rightarrow> string \<Rightarrow> string \<Rightarrow> string \<Rightarrow> bool" where
  "well_shaped n cs ws d1 d2 d3 d4 \<longleftrightarrow>
     numeric n \<and> cs \<noteq> [] \<and> set cs \<subseteq> set hex_colon \<and> ws \<noteq> [] \<and> set ws \<subseteq> set perl_s
     \<and> numeric d1 \<and> numeric d2 \<and> numeric d3 \<and> numeric d4"

definition contains_signature :: "string \<Rightarrow> bool" where
  "contains_signature line \<longleftrightarrow>
     (\<exists>p n cs ws d1 d2 d3 d4 t.
        well_shaped n cs ws d1 d2 d3 d4 \<and>
        line = p @ lit_prefix @ n @ lit_phrase @ (''0x'' @ cs) @ ws @ detail d1 d2 d3 d4 @ t)"

text \<open>
  \<open>completes_signature rest\<close>: the text \<open>rest\<close> that follows \<open>nvidia-modeset: ERROR: GPU:<n>:\<close>
  goes on with the phrase, the code, the white space and the tuple.
\<close>

definition completes_signature :: "string \<Rightarrow> bool" where
  "completes_signature rest \<longleftrightarrow>
     (\<exists>cs ws d1 d2 d3 d4 t.
        cs \<noteq> [] \<and> set cs \<subseteq> set hex_colon \<and> ws \<noteq> [] \<and> set ws \<subseteq> set perl_s \<and>
        numeric d1 \<and> numeric d2 \<and> numeric d3 \<and> numeric d4 \<and>
        '':'' @ rest = lit_phrase @ (''0x'' @ cs) @ ws @ detail d1 d2 d3 d4 @ t)"

text \<open>
  The capture slots of a match that begins at offset \<open>pos\<close> and reads the index \<open>n\<close>,
  the code \<open>c\<close>, the white space \<open>ws\<close> and the tuple \<open>d\<close>; and the instructions of the
  third group, which end the program.
\<close>

definition slots :: "nat \<Rightarrow> string \<Rightarrow> string \<Rightarrow> string \<Rightarrow> string \<Rightarrow> caps" where
  "slots pos n c ws d =
     [0 \<mapsto> pos,
      2 \<mapsto> pos + length lit_prefix,
      3 \<mapsto> pos + length lit_prefix + length n,
      4 \<mapsto> pos + length lit_prefix + length n + length lit_phrase,
      5 \<mapsto> pos + length lit_prefix + length n + length lit_phrase + length c,
      6 \<mapsto> pos + length lit_prefix + length n + length lit_phrase + length c + length ws,
      7 \<mapsto> pos + length lit_prefix + length n + length lit_phrase + length c + length ws + length d,
      1 \<mapsto> pos + length lit_prefix + length n + length lit_phrase + length c + length ws + length d]"

definition tuple_prog :: "Inst list" where
  "tuple_prog = [InstPlus perl_d, InstRune CHR '':'', InstPlus perl_d, InstRune CHR '':'',
     InstPlus perl_d, InstRune CHR '':'', InstPlus perl_d, InstCapture 7, InstCapture 1]"

section \<open>The matcher\<close>

subsection \<open>One instruction at a time\<close>

lemma backtrack_runes:
  "backtrack (map InstRune w @ is) s pos cap =
     (if prefix w s then backtrack is (drop (length w) s) (pos + length w) cap else None)"
proof (induction w arbitrary: s pos)
  case Nil
  show ?case by simp
next
  case (Cons c w)
  show ?case
  proof (cases s)
    case Nil
    then show ?thesis by simp
  next
    case (Cons x xs)
    then show ?thesis using Cons.IH [of xs "pos + 1"] by (simp add: add.assoc)
  qed
qed

lemma backtrack_runes_Some:
  "backtrack (map InstRune w @ is) s pos cap = Some r \<longleftrightarrow>
     (\<exists>s'. s = w @ s' \<and> backtrack is s' (pos + length w) cap = Some r)"
  by (auto simp: backtrack_runes prefix_def)

lemma backtrack_plus_sound:
  "backtrack (InstPlus cls # is) s pos cap = Some r \<Longrightarrow>
     \<exists>u s'. s = u @ s' \<and> u \<noteq> [] \<and> set u \<subseteq> set cls \<and> backtrack is s' (pos + length u) cap = Some r"
proof (induction s arbitrary: pos)
  case Nil
  then show ?case by simp
next
  case (Cons x xs)
  from Cons.prems have x: "x \<in> set cls" by (simp split: if_splits)
  show ?case
  proof (cases "backtrack (InstPlus cls # is) xs (pos + 1) cap")
    case None
    with Cons.prems x have "backtrack is xs (pos + 1) cap = Some r" by simp
    then have "x # xs = [x] @ xs \<and> [x] \<noteq> [] \<and> set [x] \<subseteq> set cls
        \<and> backtrack is xs (pos + length [x]) cap = Some r"
      using x by simp
    then show ?thesis by blast
  next
    case (Some r')
    with Cons.prems x have "r' = r" by simp
    with Some Cons.IH obtain u s' where
      "xs = u @ s'" "u \<noteq> []" "set u \<subseteq> set cls" "backtrack is s' (pos + 1 + length u) cap = Some r"
      by blast
    then have "x # xs = (x # u) @ s' \<and> x # u \<noteq> [] \<and> set (x # u) \<subseteq> set cls
        \<and> backtrack is s' (pos + length (x # u)) cap = Some r"
      using x by (simp add: add.assoc)
    then show ?thesis by blast
  qed
qed

lemma backtrack_plus_complete:
  "u \<noteq> [] \<Longrightarrow> set u \<subseteq> set cls \<Longrightarrow> backtrack is s' (pos + length u) cap \<noteq> None \<Longrightarrow>
     backtrack (InstPlus cls # is) (u @ s') pos cap \<noteq> None"
proof (induction u arbitrary: pos)
  case Nil
  then show ?case by simp
next
  case (Cons x u)
  show ?case
  proof (cases "u = []")
    case True
    with Cons.prems show ?thesis by (auto split: option.splits)
  next
    case False
    from Cons.prems have "backtrack is s' (pos + 1 + length u) cap \<noteq> None"
      by (simp add: add.assoc)
    with Cons.IH [OF False] Cons.prems
    have "backtrack (InstPlus cls # is) (u @ s') (pos + 1) cap \<noteq> None" by simp
    with Cons.prems show ?thesis by (auto split: option.splits)
  qed
qed

lemma backtrack_plus_stop:
  "s = [] \<or> hd s \<notin> set cls \<Longrightarrow> backtrack (InstPlus cls # is) s pos cap = None"
  by (cases s) auto

lemma backtrack_plus_greedy:
  "u \<noteq> [] \<Longrightarrow> set u \<subseteq> set cls \<Longrightarrow> s' = [] \<or> hd s' \<notin> set cls \<Longrightarrow>
     backtrack is s' (pos + length u) cap = Some r \<Longrightarrow>
     backtrack (InstPlus cls # is) (u @ s') pos cap = Some r"
proof (induction u arbitrary: pos)
  case Nil
  then show ?case by simp
next
  case (Cons x u)
  show ?case
  proof (cases "u = []")
    case True
    with Cons.prems show ?thesis by (simp add: backtrack_plus_stop)
  next
    case False
    from Cons.prems have "backtrack is s' (pos + 1 + length u) cap = Some r"
      by (simp add: add.assoc)
    with Cons.IH [OF False] Cons.prems
    have "backtrack (InstPlus cls # is) (u @ s') (pos + 1) cap = Some r"
      by simp
    with Cons.prems show ?thesis by simp
  qed
qed

lemma search_sound:
  "search is s pos = Some r \<Longrightarrow>
     \<exists>p s'. s = p @ s' \<and> backtrack is s' (pos + length p) Map.empty = Some r"
proof (induction s arbitrary: pos)
  case Nil
  then show ?case by simp
next
  case (Cons x xs)
  show ?case
  proof (cases "backtrack is (x # xs) pos Map.empty")
    case None
    with Cons.prems have "search is xs (pos + 1) = Some r" by simp
    with Cons.IH obtain p s' where "xs = p @ s'" "backtrack is s' (pos + 1 + length p) Map.empty = Some r"
      by blast
    then have "x # xs = (x # p) @ s' \<and> backtrack is s' (pos + length (x # p)) Map.empty = Some r"
      by (simp add: add.assoc)
    then show ?thesis by blast
  next
    case (Some r')
    with Cons.prems have "x # xs = [] @ (x # xs) \<and> backtrack is (x # xs) (pos + length ([]::string)) Map.empty = Some r"
      by simp
    then show ?thesis by blast
  qed
qed

lemma search_first:
  "backtrack is s pos Map.empty = Some r \<Longrightarrow> search is s pos = Some r"
  by (cases s) auto

lemma search_complete:
  "backtrack is s' (pos + length p) Map.empty \<noteq> None \<Longrightarrow> search is (p @ s') pos \<noteq> None"
proof (induction p arbitrary: pos)
  case Nil
  then show ?case by (cases s') (auto split: option.splits)
next
  case (Cons x p)
  from Cons.prems have "backtrack is s' (pos + 1 + length p) Map.empty \<noteq> None"
    by (simp add: add.assoc)
  with Cons.IH have "search is (p @ s') (pos + 1) \<noteq> None" by blast
  then show ?case by (auto split: option.splits)
qed

subsection \<open>The program of the pattern\<close>

lemma prog_pattern:
  "prog reGPUDriverErrorPattern =
     InstCapture 0 # map InstRune lit_prefix @ InstCapture 2 # InstPlus perl_d # InstCapture 3 #
     map InstRune lit_phrase @ InstCapture 4 # InstRune CHR ''0'' # InstRune CHR ''x'' #
     InstPlus hex_colon # InstCapture 5 # InstPlus perl_s # InstCapture 6 # tuple_prog"
  by (simp add: prog_def reGPUDriverErrorPattern_def lit_prefix_def lit_phrase_def tuple_prog_def)

lemma backtrack_rune_Some:
  "backtrack (InstRune c # is) s pos cap = Some r \<longleftrightarrow>
     (\<exists>s'. s = c # s' \<and> backtrack is s' (pos + 1) cap = Some r)"
  by (cases s) auto

lemma backtrack_digits_sound:
  assumes "backtrack (InstPlus perl_d # is) s pos cap = Some r"
  obtains u t where "s = u @ t" "numeric u" "backtrack is t (pos + length u) cap = Some r"
  using backtrack_plus_sound [OF assms] unfolding numeric_def perl_d_def by blast

lemma tuple_prog_sound:
  assumes "backtrack tuple_prog s pos cap = Some r"
  shows "\<exists>d1 d2 d3 d4 t. s = detail d1 d2 d3 d4 @ t \<and> numeric d1 \<and> numeric d2 \<and> numeric d3
           \<and> numeric d4
           \<and> r = cap(7 \<mapsto> pos + length (detail d1 d2 d3 d4), 1 \<mapsto> pos + length (detail d1 d2 d3 d4))"
proof -
  from assms obtain d1 t1 where 1: "s = d1 @ t1" "numeric d1"
    and b1: "backtrack (InstRune CHR '':'' # InstPlus perl_d # InstRune CHR '':'' #
       InstPlus perl_d # InstRune CHR '':'' # InstPlus perl_d # [InstCapture 7, InstCapture 1])
       t1 (pos + length d1) cap = Some r"
    unfolding tuple_prog_def by (rule backtrack_digits_sound)
  from b1 obtain t1' where t1: "t1 = CHR '':'' # t1'"
    and b1': "backtrack (InstPlus perl_d # InstRune CHR '':'' #
       InstPlus perl_d # InstRune CHR '':'' # InstPlus perl_d # [InstCapture 7, InstCapture 1])
       t1' (pos + length d1 + 1) cap = Some r"
    unfolding backtrack_rune_Some by blast
  from b1' obtain d2 t2 where 2: "t1' = d2 @ t2" "numeric d2"
    and b2: "backtrack (InstRune CHR '':'' #
       InstPlus perl_d # InstRune CHR '':'' # InstPlus perl_d # [InstCapture 7, InstCapture 1])
       t2 (pos + length d1 + 1 + length d2) cap = Some r"
    by (rule backtrack_digits_sound)
  from b2 obtain t2' where t2: "t2 = CHR '':'' # t2'"
    and b2': "backtrack (InstPlus perl_d # InstRune CHR '':'' # InstPlus perl_d #
       [InstCapture 7, InstCapture 1])
       t2' (pos + length d1 + 1 + length d2 + 1) cap = Some r"
    unfolding backtrack_rune_Some by blast
  from b2' obtain d3 t3 where 3: "t2' = d3 @ t3" "numeric d3"
    and b3: "backtrack (InstRune CHR '':'' # InstPlus perl_d # [InstCapture 7, InstCapture 1])
       t3 (pos + length d1 + 1 + length d2 + 1 + length d3) cap = Some r"
    by (rule backtrack_digits_sound)
  from b3 obtain t3' where t3: "t3 = CHR '':'' # t3'"
    and b3': "backtrack (InstPlus perl_d # [InstCapture 7, InstCapture 1])
       t3' (pos + length d1 + 1 + length d2 + 1 + length d3 + 1) cap = Some r"
    unfolding backtrack_rune_Some by blast
  from b3' obtain d4 t4 where 4: "t3' = d4 @ t4" "numeric d4"
    and b4: "backtrack [InstCapture 7, InstCapture 1]
       t4 (pos + length d1 + 1 + length d2 + 1 + length d3 + 1 + length d4) cap = Some r"
    by (rule backtrack_digits_sound)
  have s: "s = detail d1 d2 d3 d4 @ t4"
    using 1 t1 2 t2 3 t3 4 by (simp add: detail_def)
  have len: "pos + length d1 + 1 + length d2 + 1 + length d3 + 1 + length d4
      = pos + length (detail d1 d2 d3 d4)"
    by (simp add: detail_def)
  from b4 have "r = cap(7 \<mapsto> pos + length (detail d1 d2 d3 d4), 1 \<mapsto> pos + length (detail d1 d2 d3 d4))"
    unfolding len by simp
  with s 1 2 3 4 show ?thesis by blast
qed

lemma pattern_sound:
  assumes "backtrack (prog reGPUDriverErrorPattern) s pos Map.empty = Some r"
  shows "\<exists>n cs ws d1 d2 d3 d4 t.
           s = lit_prefix @ n @ lit_phrase @ (''0x'' @ cs) @ ws @ detail d1 d2 d3 d4 @ t
         \<and> numeric n \<and> cs \<noteq> [] \<and> set cs \<subseteq> set hex_colon \<and> ws \<noteq> [] \<and> set ws \<subseteq> set perl_s
         \<and> numeric d1 \<and> numeric d2 \<and> numeric d3 \<and> numeric d4
         \<and> r = slots pos n (''0x'' @ cs) ws (detail d1 d2 d3 d4)"
proof -
  let ?c0 = "[0 \<mapsto> pos] :: caps"
  from assms have "backtrack (map InstRune lit_prefix @ InstCapture 2 # InstPlus perl_d # InstCapture 3 #
     map InstRune lit_phrase @ InstCapture 4 # InstRune CHR ''0'' # InstRune CHR ''x'' #
     InstPlus hex_colon # InstCapture 5 # InstPlus perl_s # InstCapture 6 # tuple_prog)
     s pos ?c0 = Some r"
    unfolding prog_pattern by simp
  then obtain s1 where s1: "s = lit_prefix @ s1"
    and b1: "backtrack (InstPlus perl_d # InstCapture 3 #
     map InstRune lit_phrase @ InstCapture 4 # InstRune CHR ''0'' # InstRune CHR ''x'' #
     InstPlus hex_colon # InstCapture 5 # InstPlus perl_s # InstCapture 6 # tuple_prog)
     s1 (pos + length lit_prefix) (?c0(2 \<mapsto> pos + length lit_prefix)) = Some r"
    unfolding backtrack_runes_Some by auto
  let ?c2 = "?c0(2 \<mapsto> pos + length lit_prefix)"
  from b1 obtain n s2 where n: "s1 = n @ s2" "numeric n"
    and b2: "backtrack (InstCapture 3 #
     map InstRune lit_phrase @ InstCapture 4 # InstRune CHR ''0'' # InstRune CHR ''x'' #
     InstPlus hex_colon # InstCapture 5 # InstPlus perl_s # InstCapture 6 # tuple_prog)
     s2 (pos + length lit_prefix + length n) ?c2 = Some r"
    by (rule backtrack_digits_sound)
  let ?c3 = "?c2(3 \<mapsto> pos + length lit_prefix + length n)"
  from b2 have "backtrack (map InstRune lit_phrase @ InstCapture 4 # InstRune CHR ''0'' # InstRune CHR ''x'' #
     InstPlus hex_colon # InstCapture 5 # InstPlus perl_s # InstCapture 6 # tuple_prog)
     s2 (pos + length lit_prefix + length n) ?c3 = Some r"
    by simp
  then obtain s3 where s3: "s2 = lit_phrase @ s3"
    and b3: "backtrack (InstRune CHR ''0'' # InstRune CHR ''x'' #
     InstPlus hex_colon # InstCapture 5 # InstPlus perl_s # InstCapture 6 # tuple_prog)
     s3 (pos + length lit_prefix + length n + length lit_phrase)
     (?c3(4 \<mapsto> pos + length lit_prefix + length n + length lit_phrase)) = Some r"
    unfolding backtrack_runes_Some by auto
  let ?c4 = "?c3(4 \<mapsto> pos + length lit_prefix + length n + length lit_phrase)"
  from b3 obtain s4 where s4: "s3 = ''0x'' @ s4"
    and b4: "backtrack (InstPlus hex_colon # InstCapture 5 # InstPlus perl_s # InstCapture 6 # tuple_prog)
     s4 (pos + length lit_prefix + length n + length lit_phrase + 1 + 1) ?c4 = Some r"
    unfolding backtrack_rune_Some by auto
  from backtrack_plus_sound [OF b4] obtain cs s5 where cs: "s4 = cs @ s5" "cs \<noteq> []" "set cs \<subseteq> set hex_colon"
    and b5: "backtrack (InstCapture 5 # InstPlus perl_s # InstCapture 6 # tuple_prog)
     s5 (pos + length lit_prefix + length n + length lit_phrase + 1 + 1 + length cs) ?c4 = Some r"
    by blast
  have l5: "pos + length lit_prefix + length n + length lit_phrase + 1 + 1 + length cs
     = pos + length lit_prefix + length n + length lit_phrase + length (''0x'' @ cs)"
    by simp
  let ?c5 = "?c4(5 \<mapsto> pos + length lit_prefix + length n + length lit_phrase + length (''0x'' @ cs))"
  from b5 have "backtrack (InstPlus perl_s # InstCapture 6 # tuple_prog)
     s5 (pos + length lit_prefix + length n + length lit_phrase + length (''0x'' @ cs)) ?c5 = Some r"
    unfolding l5 by simp
  from backtrack_plus_sound [OF this] obtain ws s6 where ws: "s5 = ws @ s6" "ws \<noteq> []" "set ws \<subseteq> set perl_s"
    and b6: "backtrack (InstCapture 6 # tuple_prog)
     s6 (pos + length lit_prefix + length n + length lit_phrase + length (''0x'' @ cs) + length ws) ?c5 = Some r"
    by blast
  let ?c6 = "?c5(6 \<mapsto> pos + length lit_prefix + length n + length lit_phrase + length (''0x'' @ cs) + length ws)"
  from b6 have "backtrack tuple_prog
     s6 (pos + length lit_prefix + length n + length lit_phrase + length (''0x'' @ cs) + length ws) ?c6 = Some r"
    by simp
  from tuple_prog_sound [OF this] obtain d1 d2 d3 d4 t where
    d: "s6 = detail d1 d2 d3 d4 @ t" "numeric d1" "numeric d2" "numeric d3" "numeric d4"
    and r: "r = ?c6(7 \<mapsto> pos + length lit_prefix + length n + length lit_phrase + length (''0x'' @ cs) + length ws
                       + length (detail d1 d2 d3 d4),
                  1 \<mapsto> pos + length lit_prefix + length n + length lit_phrase + length (''0x'' @ cs) + length ws
                       + length (detail d1 d2 d3 d4))"
    by blast
  have "s = lit_prefix @ n @ lit_phrase @ (''0x'' @ cs) @ ws @ detail d1 d2 d3 d4 @ t"
    using s1 n s3 s4 cs ws d by simp
  moreover have "r = slots pos n (''0x'' @ cs) ws (detail d1 d2 d3 d4)"
    unfolding r slots_def ..
  ultimately show ?thesis using n cs ws d by blast
qed

lemma numeric_perl_d: "numeric u \<Longrightarrow> u \<noteq> [] \<and> set u \<subseteq> set perl_d"
  by (simp add: numeric_def perl_d_def)

lemma tuple_prog_complete:
  assumes "numeric d1" "numeric d2" "numeric d3" "numeric d4"
  shows "backtrack tuple_prog (detail d1 d2 d3 d4 @ t) pos cap \<noteq> None"
proof -
  have a4: "backtrack (InstPlus perl_d # [InstCapture 7, InstCapture 1]) (d4 @ t) q c \<noteq> None" for q c
    using numeric_perl_d [OF assms(4)] by (intro backtrack_plus_complete) simp_all
  have a3: "backtrack (InstPlus perl_d # InstRune CHR '':'' # InstPlus perl_d #
      [InstCapture 7, InstCapture 1]) (d3 @ CHR '':'' # d4 @ t) q c \<noteq> None" for q c
    using numeric_perl_d [OF assms(3)] a4 by (intro backtrack_plus_complete) simp_all
  have a2: "backtrack (InstPlus perl_d # InstRune CHR '':'' # InstPlus perl_d #
      InstRune CHR '':'' # InstPlus perl_d #
      [InstCapture 7, InstCapture 1]) (d2 @ CHR '':'' # d3 @ CHR '':'' # d4 @ t) q c \<noteq> None" for q c
    using numeric_perl_d [OF assms(2)] a3 by (intro backtrack_plus_complete) simp_all
  have a1: "backtrack (InstPlus perl_d # InstRune CHR '':'' # InstPlus perl_d #
      InstRune CHR '':'' # InstPlus perl_d # InstRune CHR '':'' # InstPlus perl_d #
      [InstCapture 7, InstCapture 1]) (d1 @ CHR '':'' # d2 @ CHR '':'' # d3 @ CHR '':'' # d4 @ t) q c \<noteq> None" for q c
    using numeric_perl_d [OF assms(1)] a2 by (intro backtrack_plus_complete) simp_all
  show ?thesis using a1 [of pos cap] by (simp add: tuple_prog_def detail_def)
qed

lemma pattern_complete:
  assumes "numeric n" "cs \<noteq> []" "set cs \<subseteq> set hex_colon" "ws \<noteq> []" "set ws \<subseteq> set perl_s"
    "numeric d1" "numeric d2" "numeric d3" "numeric d4"
  shows "backtrack (prog reGPUDriverErrorPattern)
           (lit_prefix @ n @ lit_phrase @ (''0x'' @ cs) @ ws @ detail d1 d2 d3 d4 @ t) pos cap \<noteq> None"
proof -
  note tp = tuple_prog_complete [OF assms(6-9)]
  have a6: "backtrack (InstPlus perl_s # InstCapture 6 # tuple_prog)
      (ws @ detail d1 d2 d3 d4 @ t) q c \<noteq> None" for q c
    using assms(4,5) tp by (intro backtrack_plus_complete) simp_all
  have a5: "backtrack (InstPlus hex_colon # InstCapture 5 # InstPlus perl_s # InstCapture 6 # tuple_prog)
      (cs @ ws @ detail d1 d2 d3 d4 @ t) q c \<noteq> None" for q c
    using assms(2,3) a6 by (intro backtrack_plus_complete) simp_all
  have a3: "backtrack (map InstRune lit_phrase @ InstCapture 4 # InstRune CHR ''0'' # InstRune CHR ''x'' #
      InstPlus hex_colon # InstCapture 5 # InstPlus perl_s # InstCapture 6 # tuple_prog)
      (lit_phrase @ (''0x'' @ cs) @ ws @ detail d1 d2 d3 d4 @ t) q c \<noteq> None" for q c
    using a5 by (simp add: backtrack_runes)
  have a2: "backtrack (InstPlus perl_d # InstCapture 3 #
      map InstRune lit_phrase @ InstCapture 4 # InstRune CHR ''0'' # InstRune CHR ''x'' #
      InstPlus hex_colon # InstCapture 5 # InstPlus perl_s # InstCapture 6 # tuple_prog)
      (n @ lit_phrase @ (''0x'' @ cs) @ ws @ detail d1 d2 d3 d4 @ t) q c \<noteq> None" for q c
    using numeric_perl_d [OF assms(1)] a3 by (intro backtrack_plus_complete) simp_all
  show ?thesis
    unfolding prog_pattern using a2 by (simp add: backtrack_runes)
qed

lemma numeric_hd: "numeric u \<Longrightarrow> hd (u @ s) \<notin> set perl_s \<and> hd (u @ s) \<notin> set '':''"
  by (cases u) (auto simp: numeric_def perl_s_def)

lemma space_hd: "ws \<noteq> [] \<Longrightarrow> set ws \<subseteq> set perl_s \<Longrightarrow> hd (ws @ s) \<notin> set hex_colon"
  by (cases ws) (auto simp: perl_s_def hex_colon_def)

lemma tuple_prog_greedy:
  assumes "numeric d1" "numeric d2" "numeric d3" "numeric d4" "t = [] \<or> hd t \<notin> set perl_d"
  shows "backtrack tuple_prog (detail d1 d2 d3 d4 @ t) pos cap =
           Some (cap(7 \<mapsto> pos + length (detail d1 d2 d3 d4), 1 \<mapsto> pos + length (detail d1 d2 d3 d4)))"
    (is "_ = Some ?r")
proof -
  have colon: "CHR '':'' \<notin> set perl_d" by (simp add: perl_d_def)
  have len: "pos + length d1 + 1 + length d2 + 1 + length d3 + 1 + length d4
      = pos + length (detail d1 d2 d3 d4)"
    by (simp add: detail_def)
  have a5: "backtrack [InstCapture 7, InstCapture 1] t
      (pos + length d1 + 1 + length d2 + 1 + length d3 + 1 + length d4) cap = Some ?r"
    unfolding len by simp
  have a4: "backtrack (InstPlus perl_d # [InstCapture 7, InstCapture 1]) (d4 @ t)
      (pos + length d1 + 1 + length d2 + 1 + length d3 + 1) cap = Some ?r"
    using numeric_perl_d [OF assms(4)] assms(5) a5
    by (intro backtrack_plus_greedy) simp_all
  have a3: "backtrack (InstPlus perl_d # InstRune CHR '':'' # InstPlus perl_d #
      [InstCapture 7, InstCapture 1]) (d3 @ CHR '':'' # d4 @ t)
      (pos + length d1 + 1 + length d2 + 1) cap = Some ?r"
    using numeric_perl_d [OF assms(3)] a4 colon by (intro backtrack_plus_greedy) simp_all
  have a2: "backtrack (InstPlus perl_d # InstRune CHR '':'' # InstPlus perl_d #
      InstRune CHR '':'' # InstPlus perl_d #
      [InstCapture 7, InstCapture 1]) (d2 @ CHR '':'' # d3 @ CHR '':'' # d4 @ t)
      (pos + length d1 + 1) cap = Some ?r"
    using numeric_perl_d [OF assms(2)] a3 colon by (intro backtrack_plus_greedy) simp_all
  have a1: "backtrack (InstPlus perl_d # InstRune CHR '':'' # InstPlus perl_d #
      InstRune CHR '':'' # InstPlus perl_d # InstRune CHR '':'' # InstPlus perl_d #
      [InstCapture 7, InstCapture 1]) (d1 @ CHR '':'' # d2 @ CHR '':'' # d3 @ CHR '':'' # d4 @ t)
      pos cap = Some ?r"
    using numeric_perl_d [OF assms(1)] a2 colon by (intro backtrack_plus_greedy) simp_all
  show ?thesis using a1 by (simp add: tuple_prog_def detail_def)
qed

lemma pattern_greedy:
  assumes "numeric n" "cs \<noteq> []" "set cs \<subseteq> set hex_colon" "ws \<noteq> []" "set ws \<subseteq> set perl_s"
    "numeric d1" "numeric d2" "numeric d3" "numeric d4" "t = [] \<or> hd t \<notin> set perl_d"
  shows "backtrack (prog reGPUDriverErrorPattern)
           (lit_prefix @ n @ lit_phrase @ (''0x'' @ cs) @ ws @ detail d1 d2 d3 d4 @ t) pos Map.empty
         = Some (slots pos n (''0x'' @ cs) ws (detail d1 d2 d3 d4))"
    (is "_ = Some ?r")
proof -
  let ?c0 = "[0 \<mapsto> pos] :: caps"
  let ?c2 = "?c0(2 \<mapsto> pos + length lit_prefix)"
  let ?c3 = "?c2(3 \<mapsto> pos + length lit_prefix + length n)"
  let ?c4 = "?c3(4 \<mapsto> pos + length lit_prefix + length n + length lit_phrase)"
  let ?c5 = "?c4(5 \<mapsto> pos + length lit_prefix + length n + length lit_phrase + length (''0x'' @ cs))"
  let ?c6 = "?c5(6 \<mapsto> pos + length lit_prefix + length n + length lit_phrase + length (''0x'' @ cs) + length ws)"
  have d1hd: "hd (detail d1 d2 d3 d4 @ t) \<notin> set perl_s"
    using numeric_hd [OF assms(6)] by (simp add: detail_def)
  have a7: "backtrack tuple_prog (detail d1 d2 d3 d4 @ t)
      (pos + length lit_prefix + length n + length lit_phrase + length (''0x'' @ cs) + length ws) ?c6 = Some ?r"
    unfolding tuple_prog_greedy [OF assms(6-10)] slots_def ..
  have a6: "backtrack (InstPlus perl_s # InstCapture 6 # tuple_prog)
      (ws @ detail d1 d2 d3 d4 @ t)
      (pos + length lit_prefix + length n + length lit_phrase + length (''0x'' @ cs)) ?c5 = Some ?r"
    using assms(4,5) d1hd a7 by (intro backtrack_plus_greedy) simp_all
  have a5: "backtrack (InstPlus hex_colon # InstCapture 5 # InstPlus perl_s # InstCapture 6 # tuple_prog)
      (cs @ ws @ detail d1 d2 d3 d4 @ t)
      (pos + length lit_prefix + length n + length lit_phrase + 1 + 1) ?c4 = Some ?r"
    using assms(2,3) space_hd [OF assms(4,5)] a6
    by (intro backtrack_plus_greedy) (simp_all add: add.assoc)
  have a3: "backtrack (map InstRune lit_phrase @ InstCapture 4 # InstRune CHR ''0'' # InstRune CHR ''x'' #
      InstPlus hex_colon # InstCapture 5 # InstPlus perl_s # InstCapture 6 # tuple_prog)
      (lit_phrase @ (''0x'' @ cs) @ ws @ detail d1 d2 d3 d4 @ t) (pos + length lit_prefix + length n) ?c3 = Some ?r"
    using a5 by (simp add: backtrack_runes)
  have phrase_hd: "hd (lit_phrase @ s) \<notin> set perl_d" for s
    by (simp add: lit_phrase_def perl_d_def)
  have a2: "backtrack (InstPlus perl_d # InstCapture 3 #
      map InstRune lit_phrase @ InstCapture 4 # InstRune CHR ''0'' # InstRune CHR ''x'' #
      InstPlus hex_colon # InstCapture 5 # InstPlus perl_s # InstCapture 6 # tuple_prog)
      (n @ lit_phrase @ (''0x'' @ cs) @ ws @ detail d1 d2 d3 d4 @ t) (pos + length lit_prefix) ?c2 = Some ?r"
    using numeric_perl_d [OF assms(1)] a3 phrase_hd by (intro backtrack_plus_greedy) simp_all
  show ?thesis
    unfolding prog_pattern using a2 by (simp add: backtrack_runes)
qed

subsection \<open>The submatches\<close>

lemma slice_mid: "a = length x \<Longrightarrow> b = length x + length y \<Longrightarrow> slice (x @ y @ z) a b = y"
  by (simp add: slice_def)

lemma NumSubexp_pattern: "NumSubexp reGPUDriverErrorPattern = 3"
  by (simp add: reGPUDriverErrorPattern_def)

lemma submatches_slots:
  assumes "search (prog reGPUDriverErrorPattern) (p @ lit_prefix @ n @ lit_phrase @ c @ ws @ d @ t) 0
             = Some (slots (length p) n c ws d)"
  shows "FindStringSubmatch reGPUDriverErrorPattern (p @ lit_prefix @ n @ lit_phrase @ c @ ws @ d @ t)
           = [lit_prefix @ n @ lit_phrase @ c @ ws @ d, n, c, d]"
proof -
  let ?line = "p @ lit_prefix @ n @ lit_phrase @ c @ ws @ d @ t"
  let ?r = "slots (length p) n c ws d"
  have g0: "slice ?line (length p) (length p + length lit_prefix + length n + length lit_phrase + length c
       + length ws + length d) = lit_prefix @ n @ lit_phrase @ c @ ws @ d"
    using slice_mid [of "length p" p _ "lit_prefix @ n @ lit_phrase @ c @ ws @ d" t] by (simp add: add.assoc)
  have g1: "slice ?line (length p + length lit_prefix) (length p + length lit_prefix + length n) = n"
    using slice_mid [of "length p + length lit_prefix" "p @ lit_prefix" _ n "lit_phrase @ c @ ws @ d @ t"] by simp
  have g2: "slice ?line (length p + length lit_prefix + length n + length lit_phrase)
       (length p + length lit_prefix + length n + length lit_phrase + length c) = c"
    using slice_mid [of _ "p @ lit_prefix @ n @ lit_phrase" _ c "ws @ d @ t"] by (simp add: add.assoc)
  have g3: "slice ?line (length p + length lit_prefix + length n + length lit_phrase + length c + length ws)
       (length p + length lit_prefix + length n + length lit_phrase + length c + length ws + length d) = d"
    using slice_mid [of _ "p @ lit_prefix @ n @ lit_phrase @ c @ ws" _ d t] by (simp add: add.assoc)
  have up: "[0 ..< 1 + 3] = [0, 1, 2, 3::nat]"
    by (simp add: upt_rec)
  have r: "?r 0 = Some (length p)"
    "?r (Suc 0) = Some (length p + length lit_prefix + length n + length lit_phrase + length c + length ws + length d)"
    "?r 2 = Some (length p + length lit_prefix)"
    "?r 3 = Some (length p + length lit_prefix + length n)"
    "?r 4 = Some (length p + length lit_prefix + length n + length lit_phrase)"
    "?r 5 = Some (length p + length lit_prefix + length n + length lit_phrase + length c)"
    "?r 6 = Some (length p + length lit_prefix + length n + length lit_phrase + length c + length ws)"
    "?r 7 = Some (length p + length lit_prefix + length n + length lit_phrase + length c + length ws + length d)"
    by (simp_all add: slots_def)
  show ?thesis
    unfolding FindStringSubmatch_def assms NumSubexp_pattern up
    by (simp add: r g0 g1 g2 g3)
qed

lemma FindStringSubmatch_nil:
  "FindStringSubmatch re s = [] \<longleftrightarrow> search (prog re) s 0 = None"
  by (simp add: FindStringSubmatch_def split: option.splits)

lemma FindStringSubmatch_sound:
  assumes "FindStringSubmatch reGPUDriverErrorPattern line \<noteq> []"
  shows "\<exists>p n cs ws d1 d2 d3 d4 t.
           line = p @ lit_prefix @ n @ lit_phrase @ (''0x'' @ cs) @ ws @ detail d1 d2 d3 d4 @ t
         \<and> well_shaped n cs ws d1 d2 d3 d4
         \<and> FindStringSubmatch reGPUDriverErrorPattern line =
             [lit_prefix @ n @ lit_phrase @ (''0x'' @ cs) @ ws @ detail d1 d2 d3 d4, n, ''0x'' @ cs,
              detail d1 d2 d3 d4]"
proof -
  from assms obtain r where r: "search (prog reGPUDriverErrorPattern) line 0 = Some r"
    by (auto simp: FindStringSubmatch_nil)
  from search_sound [OF r] obtain p s' where
    line: "line = p @ s'"
    and b: "backtrack (prog reGPUDriverErrorPattern) s' (0 + length p) Map.empty = Some r"
    by blast
  from pattern_sound [OF b] obtain n cs ws d1 d2 d3 d4 t where
    s': "s' = lit_prefix @ n @ lit_phrase @ (''0x'' @ cs) @ ws @ detail d1 d2 d3 d4 @ t"
    and sh: "well_shaped n cs ws d1 d2 d3 d4"
    and rr: "r = slots (0 + length p) n (''0x'' @ cs) ws (detail d1 d2 d3 d4)"
    unfolding well_shaped_def by blast
  have "search (prog reGPUDriverErrorPattern)
          (p @ lit_prefix @ n @ lit_phrase @ (''0x'' @ cs) @ ws @ detail d1 d2 d3 d4 @ t) 0
        = Some (slots (length p) n (''0x'' @ cs) ws (detail d1 d2 d3 d4))"
    using r rr line s' by simp
  from submatches_slots [OF this] line s' sh show ?thesis by blast
qed

lemma FindStringSubmatch_complete:
  assumes "well_shaped n cs ws d1 d2 d3 d4"
  shows "FindStringSubmatch reGPUDriverErrorPattern
           (p @ lit_prefix @ n @ lit_phrase @ (''0x'' @ cs) @ ws @ detail d1 d2 d3 d4 @ t) \<noteq> []"
proof -
  from assms have "backtrack (prog reGPUDriverErrorPattern)
      (lit_prefix @ n @ lit_phrase @ (''0x'' @ cs) @ ws @ detail d1 d2 d3 d4 @ t) (0 + length p) Map.empty \<noteq> None"
    unfolding well_shaped_def by (intro pattern_complete) simp_all
  from search_complete [OF this] show ?thesis
    by (simp add: FindStringSubmatch_nil)
qed

lemma FindStringSubmatch_exact:
  assumes "well_shaped n cs ws d1 d2 d3 d4" "t = [] \<or> hd t \<notin> set perl_d"
  shows "FindStringSubmatch reGPUDriverErrorPattern
           (lit_prefix @ n @ lit_phrase @ (''0x'' @ cs) @ ws @ detail d1 d2 d3 d4 @ t)
         = [lit_prefix @ n @ lit_phrase @ (''0x'' @ cs) @ ws @ detail d1 d2 d3 d4, n, ''0x'' @ cs,
            detail d1 d2 d3 d4]"
proof -
  from assms have "backtrack (prog reGPUDriverErrorPattern)
      (lit_prefix @ n @ lit_phrase @ (''0x'' @ cs) @ ws @ detail d1 d2 d3 d4 @ t) 0 Map.empty
      = Some (slots 0 n (''0x'' @ cs) ws (detail d1 d2 d3 d4))"
    unfolding well_shaped_def by (intro pattern_greedy) simp_all
  from search_first [OF this]
  have "search (prog reGPUDriverErrorPattern)
      ([] @ lit_prefix @ n @ lit_phrase @ (''0x'' @ cs) @ ws @ detail d1 d2 d3 d4 @ t) 0
      = Some (slots (length ([]::string)) n (''0x'' @ cs) ws (detail d1 d2 d3 d4))"
    by simp
  from submatches_slots [OF this] show ?thesis by simp
qed

lemma parse_None: "parseGPUDriverError h line = None \<longleftrightarrow> FindStringSubmatch reGPUDriverErrorPattern line = []"
proof (cases "FindStringSubmatch reGPUDriverErrorPattern line = []")
  case True
  then show ?thesis by (simp add: parseGPUDriverError_def)
next
  case False
  from FindStringSubmatch_sound [OF this] show ?thesis
    by (auto simp: parseGPUDriverError_def)
qed

lemma parse_Some:
  "FindStringSubmatch reGPUDriverErrorPattern line = [w, n, c, d] \<Longrightarrow>
     parseGPUDriverError h line = Some \<lparr>gpuID = n, errorCode = c, errorDetails = d, message = line\<rparr>"
  by (simp add: parseGPUDriverError_def)

section \<open>The handler's methods\<close>

lemma createHealthEventFromError_result:
  "createHealthEventFromError e now s =
     (\<lparr>EventsVersion = 1,
       Events = [\<lparr>Version = 1,
                  Agent = defaultAgentName (handler s),
                  CheckName = checkName (handler s),
                  ComponentClass = defaultComponentClass (handler s),
                  GeneratedTimestamp = now,
                  EntitiesImpacted = [\<lparr>EntityType = ''GPU'', EntityValue = gpuID e\<rparr>],
                  Message = ''GPU '' @ gpuID e @ '': nvidia-modeset driver error detected. ''
                    @ ''Error code: '' @ errorCode e @ '', Details: '' @ errorDetails e @ ''. ''
                    @ ''This indicates the GPU driver is not coming up properly. ''
                    @ ''nvidia-driver-daemonset and device-plugin daemonset may be crashing. ''
                    @ ''Original message: '' @ message e,
                  IsFatal = True,
                  IsHealthy = False,
                  NodeName = nodeName (handler s),
                  RecommendedAction = RESTART_BM,
                  ErrorCode = [''GPU_DRIVER_ERROR'']\<rparr>]\<rparr>,
      s\<lparr>gpuDriverErrorsReportedMetric :=
           Inc (gpuDriverErrorsReportedMetric s) [nodeName (handler s), gpuID e]\<rparr>)"
  by (simp add: createHealthEventFromError_def Let_def)

lemma ProcessLine_no_match:
  "parseGPUDriverError (handler s) line = None \<Longrightarrow> ProcessLine line now s = ((None, None), s)"
  by (simp add: ProcessLine_def)

lemma ProcessLine_match:
  assumes "parseGPUDriverError (handler s) line = Some e"
  shows "fst (ProcessLine line now s) =
      (Some (fst (createHealthEventFromError e now s)), None)"
    and "handler (snd (ProcessLine line now s)) = handler s"
  using assms by (simp_all add: ProcessLine_def Let_def createHealthEventFromError_result)

lemma ProcessLine_handler: "handler (snd (ProcessLine line now s)) = handler s"
  by (cases "parseGPUDriverError (handler s) line")
     (simp_all add: ProcessLine_no_match ProcessLine_match)

lemma test_line_submatches:
  "FindStringSubmatch reGPUDriverErrorPattern test_line
     = [test_line, ''2'', ''0x0000c77d:0'', ''2:0:4048:4040'']"
  by (simp add: FindStringSubmatch_def prog_def reGPUDriverErrorPattern_def
      perl_d_def perl_s_def hex_colon_def slice_def test_line_def other_line_def)

lemma other_line_submatches:
  "FindStringSubmatch reGPUDriverErrorPattern other_line = []"
  by (simp add: FindStringSubmatch_def prog_def reGPUDriverErrorPattern_def
      perl_d_def perl_s_def hex_colon_def slice_def test_line_def other_line_def)

lemma ProcessLine_None_iff:
  "fst (fst (ProcessLine line now s)) = None \<longleftrightarrow> FindStringSubmatch reGPUDriverErrorPattern line = []"
  using parse_None [of "handler s" line]
  by (cases "parseGPUDriverError (handler s) line") (simp_all add: ProcessLine_no_match ProcessLine_match)

lemma ProcessLine_submatches:
  assumes "FindStringSubmatch reGPUDriverErrorPattern line = [w, n, c, d]"
  shows "fst (ProcessLine line now s) =
     (Some (fst (createHealthEventFromError
        \<lparr>gpuID = n, errorCode = c, errorDetails = d, message = line\<rparr> now s)), None)"
  by (rule ProcessLine_match(1)) (rule parse_Some [OF assms])

lemma ProcessLine_frame:
  "handler s1 = handler s2 \<Longrightarrow>
     fst (ProcessLine line now s1) = fst (ProcessLine line now s2)"
  by (cases "parseGPUDriverError (handler s2) line")
     (simp_all add: ProcessLine_no_match ProcessLine_match createHealthEventFromError_result)

lemma ProcessLines_results:
  "fst (ProcessLines calls s) = map (\<lambda>(line, now). fst (ProcessLine line now s)) calls
   \<and> handler (snd (ProcessLines calls s)) = handler s"
proof (induction calls arbitrary: s)
  case Nil
  show ?case by simp
next
  case (Cons call calls)
  obtain line now where call: "call = (line, now)" by (cases call)
  let ?s' = "snd (ProcessLine line now s)"
  have h: "handler ?s' = handler s" by (rule ProcessLine_handler)
  have "map (\<lambda>(l, t). fst (ProcessLine l t ?s')) calls = map (\<lambda>(l, t). fst (ProcessLine l t s)) calls"
    using ProcessLine_frame [OF h] by simp
  with Cons.IH [of ?s'] h show ?case
    by (simp add: call split_beta Let_def)
qed

lemma contains_signature_iff:
  "contains_signature line \<longleftrightarrow> FindStringSubmatch reGPUDriverErrorPattern line \<noteq> []"
proof
  assume "contains_signature line"
  then show "FindStringSubmatch reGPUDriverErrorPattern line \<noteq> []"
    unfolding contains_signature_def using FindStringSubmatch_complete by blast
next
  assume "FindStringSubmatch reGPUDriverErrorPattern line \<noteq> []"
  from FindStringSubmatch_sound [OF this] show "contains_signature line"
    unfolding contains_signature_def by blast
qed

lemma contains_signature_context:
  assumes "contains_signature line"
  shows "contains_signature (p @ line @ t)"
proof -
  from assms obtain p' n cs ws d1 d2 d3 d4 t' where
    sh: "well_shaped n cs ws d1 d2 d3 d4"
    and line: "line = p' @ lit_prefix @ n @ lit_phrase @ (''0x'' @ cs) @ ws @ detail d1 d2 d3 d4 @ t'"
    unfolding contains_signature_def by blast
  have "p @ line @ t =
      (p @ p') @ lit_prefix @ n @ lit_phrase @ (''0x'' @ cs) @ ws @ detail d1 d2 d3 d4 @ (t' @ t)"
    by (simp add: line)
  with sh show ?thesis unfolding contains_signature_def by blast
qed

lemma hex_colon_members:
  "set ''0123456789abcdefABCDEF'' \<subseteq> set hex_colon"
  "set ''0123456789'' \<subseteq> set hex_colon"
  "CHR '':'' \<in> set hex_colon"
  by (simp_all add: hex_colon_def)

lemma error_code_chars:
  assumes "hexadecimal hex" "case sub of None \<Rightarrow> True | Some k \<Rightarrow> numeric k"
  shows "hex @ sub_index sub \<noteq> [] \<and> set (hex @ sub_index sub) \<subseteq> set hex_colon"
proof -
  from assms(1) have hex: "hex \<noteq> []" "set hex \<subseteq> set hex_colon"
    using hex_colon_members(1) by (auto simp: hexadecimal_def)
  have "set (sub_index sub) \<subseteq> set hex_colon"
  proof (cases sub)
    case None
    then show ?thesis by (simp add: sub_index_def)
  next
    case (Some k)
    with assms(2) have "set k \<subseteq> set hex_colon"
      using hex_colon_members(2) by (auto simp: numeric_def)
    with Some show ?thesis
      using hex_colon_members(3) by (simp add: sub_index_def)
  qed
  with hex show ?thesis by simp
qed

lemma colon_split_unique:
  "CHR '':'' \<notin> set a \<Longrightarrow> CHR '':'' \<notin> set b \<Longrightarrow> a @ CHR '':'' # r = b @ CHR '':'' # r' \<Longrightarrow>
     a = b \<and> r = r'"
proof (induction a arbitrary: b)
  case Nil
  then show ?case by (cases b) auto
next
  case (Cons x a)
  then show ?case by (cases b) auto
qed

lemma numeric_no_colon: "numeric n \<Longrightarrow> CHR '':'' \<notin> set n"
  by (auto simp: numeric_def)

lemma prefix_overlap:
  assumes "numeric n" and eq: "lit_prefix @ n @ '':'' @ rest = p @ lit_prefix @ x"
  shows "p = [] \<or> (\<exists>q. rest = q @ lit_prefix @ x)"
proof (cases "p = []")
  case True
  then show ?thesis by simp
next
  case False
  let ?A = "lit_prefix @ n @ '':''"
  from eq have "?A @ rest = p @ (lit_prefix @ x)" by simp
  then obtain u where u: "(?A = p @ u \<and> u @ rest = lit_prefix @ x) \<or> (?A @ u = p \<and> rest = u @ lit_prefix @ x)"
    unfolding append_eq_append_conv2 by blast
  show ?thesis
  proof (cases "?A = p @ u \<and> u @ rest = lit_prefix @ x \<and> u \<noteq> []")
    case True
    then have hd: "hd u = CHR ''n''"
      by (cases u) (auto simp: lit_prefix_def)
    from False obtain y p' where p: "p = y # p'" by (cases p) auto
    with True have "tl ?A = p' @ u" by (metis list.sel(3) append_Cons)
    moreover from True have "hd u \<in> set u" by simp
    ultimately have "CHR ''n'' \<in> set (tl ?A)" using hd by simp
    with assms(1) have False
      by (auto simp: lit_prefix_def numeric_def)
    then show ?thesis ..
  next
    case False
    with u have "(\<exists>q. rest = q @ lit_prefix @ x)"
      by (metis append_Nil)
    then show ?thesis ..
  qed
qed

lemma hexadecimal_no_colon: "hexadecimal hex \<Longrightarrow> CHR '':'' \<notin> set hex"
  by (auto simp: hexadecimal_def)

lemma is_error_code_iff:
  "is_error_code c \<longleftrightarrow>
     (\<exists>hex sub. hexadecimal hex \<and> (case sub of None \<Rightarrow> True | Some k \<Rightarrow> numeric k)
        \<and> c = error_code hex sub)"
proof
  assume "is_error_code c"
  then obtain body where c: "c = ''0x'' @ body"
    and hex: "hexadecimal (takeWhile (\<lambda>x. x \<noteq> CHR '':'') body)"
    and sub: "dropWhile (\<lambda>x. x \<noteq> CHR '':'') body = []
        \<or> numeric (tl (dropWhile (\<lambda>x. x \<noteq> CHR '':'') body))"
    by (auto simp: is_error_code_def Let_def split: list.splits)
  let ?hex = "takeWhile (\<lambda>x. x \<noteq> CHR '':'') body"
  let ?sub = "dropWhile (\<lambda>x. x \<noteq> CHR '':'') body"
  have body: "body = ?hex @ ?sub" by simp
  show "\<exists>hex sub. hexadecimal hex \<and> (case sub of None \<Rightarrow> True | Some k \<Rightarrow> numeric k)
        \<and> c = error_code hex sub"
  proof (cases "?sub = []")
    case True
    with body c have "c = error_code ?hex None"
      by (simp add: error_code_def sub_index_def)
    with hex show ?thesis
      by (metis option.simps(4))
  next
    case False
    then have "hd ?sub = CHR '':''"
      using hd_dropWhile [of "\<lambda>x. x \<noteq> CHR '':''" body] by simp
    with False have "?sub = CHR '':'' # tl ?sub"
      by (metis list.collapse)
    with body c have "c = error_code ?hex (Some (tl ?sub))"
      by (simp add: error_code_def sub_index_def)
    moreover from sub False have "numeric (tl ?sub)" by blast
    ultimately show ?thesis using hex
      by (metis option.simps(5))
  qed
next
  assume "\<exists>hex sub. hexadecimal hex \<and> (case sub of None \<Rightarrow> True | Some k \<Rightarrow> numeric k)
        \<and> c = error_code hex sub"
  then obtain hex sub where hex: "hexadecimal hex"
    and sub: "case sub of None \<Rightarrow> True | Some k \<Rightarrow> numeric k"
    and c: "c = error_code hex sub"
    by blast
  have nc: "\<forall>x \<in> set hex. x \<noteq> CHR '':''"
    using hexadecimal_no_colon [OF hex] by blast
  then have tw: "takeWhile (\<lambda>x. x \<noteq> CHR '':'') hex = hex"
    and dw: "dropWhile (\<lambda>x. x \<noteq> CHR '':'') hex = []"
    by simp_all
  show "is_error_code c"
  proof (cases sub)
    case None
    with hex nc show ?thesis
      by (simp add: c is_error_code_def error_code_def sub_index_def tw)
  next
    case (Some k)
    with sub have "numeric k" by simp
    with nc hex Some show ?thesis
      by (simp add: c is_error_code_def error_code_def sub_index_def)
  qed
qed

lemma partial_rest_submatches:
  "FindStringSubmatch reGPUDriverErrorPattern '' Some other error'' = []"
  by (simp add: FindStringSubmatch_def prog_def reGPUDriverErrorPattern_def
      perl_d_def perl_s_def hex_colon_def slice_def)

section \<open>The claims\<close>

text \<open>
  C1. On every line that is the full signature, with a numeric GPU index \<open>n\<close>, an error
  code \<open>0x<hex>\<close> with or without a numeric sub-index \<open>:<digits>\<close>, one space and four
  numeric fields joined by colons, \<open>ProcessLine\<close> returns exactly one event; the three
  submatches are the index, the code and the tuple; the single impacted entity has the
  index as its value, and the message contains the code and the tuple verbatim.
\<close>

theorem signature_line_event:
  assumes "numeric n" and "hexadecimal hex"
    and "case sub of None \<Rightarrow> True | Some k \<Rightarrow> numeric k"
    and "numeric d1" and "numeric d2" and "numeric d3" and "numeric d4"
  shows "\<exists>ev. fst (ProcessLine (signature_line n (error_code hex sub) (detail d1 d2 d3 d4)) now s)
                = (Some \<lparr>EventsVersion = 1, Events = [ev]\<rparr>, None)
            \<and> FindStringSubmatch reGPUDriverErrorPattern
                (signature_line n (error_code hex sub) (detail d1 d2 d3 d4))
                = [signature_line n (error_code hex sub) (detail d1 d2 d3 d4), n,
                   error_code hex sub, detail d1 d2 d3 d4]
            \<and> EntitiesImpacted ev = [\<lparr>EntityType = ''GPU'', EntityValue = n\<rparr>]
            \<and> sublist (error_code hex sub) (Message ev)
            \<and> sublist (detail d1 d2 d3 d4) (Message ev)"
proof -
  let ?c = "error_code hex sub" and ?d = "detail d1 d2 d3 d4"
  let ?line = "signature_line n ?c ?d"
  from error_code_chars [OF assms(2,3)] assms
  have sh: "well_shaped n (hex @ sub_index sub) '' '' d1 d2 d3 d4"
    by (simp add: well_shaped_def perl_s_def)
  have line: "?line = lit_prefix @ n @ lit_phrase @ (''0x'' @ hex @ sub_index sub) @ '' '' @ ?d @ []"
    by (simp add: signature_line_def error_code_def)
  have m: "FindStringSubmatch reGPUDriverErrorPattern ?line = [?line, n, ?c, ?d]"
    unfolding line using FindStringSubmatch_exact [OF sh, of "[]"]
    by (simp add: error_code_def)
  let ?ev = "hd (Events (fst (createHealthEventFromError
        \<lparr>gpuID = n, errorCode = ?c, errorDetails = ?d, message = ?line\<rparr> now s)))"
  have r: "fst (ProcessLine ?line now s) = (Some \<lparr>EventsVersion = 1, Events = [?ev]\<rparr>, None)"
    by (simp add: ProcessLine_submatches [OF m] createHealthEventFromError_result)
  have e: "EntitiesImpacted ?ev = [\<lparr>EntityType = ''GPU'', EntityValue = n\<rparr>]"
    by (simp add: createHealthEventFromError_result)
  have msg: "Message ?ev =
      (''GPU '' @ n @ '': nvidia-modeset driver error detected. Error code: '') @ ?c
      @ ('', Details: '' @ ?d
         @ ''. This indicates the GPU driver is not coming up properly. nvidia-driver-daemonset and device-plugin daemonset may be crashing. Original message: ''
         @ ?line)"
    "Message ?ev =
      (''GPU '' @ n @ '': nvidia-modeset driver error detected. Error code: '' @ ?c
         @ '', Details: '') @ ?d
      @ (''. This indicates the GPU driver is not coming up properly. nvidia-driver-daemonset and device-plugin daemonset may be crashing. Original message: ''
         @ ?line)"
    by (simp_all add: createHealthEventFromError_result)
  have "sublist ?c (Message ?ev)"
    unfolding sublist_def using msg(1) by blast
  moreover have "sublist ?d (Message ?ev)"
    unfolding sublist_def using msg(2) by blast
  ultimately show ?thesis using r m e by blast
qed

theorem signature_line_event_witness:
  "numeric ''2'' \<and> hexadecimal ''0000c77d'' \<and> numeric ''0'' \<and> numeric ''4048'' \<and> numeric ''4040''
   \<and> signature_line ''2'' (error_code ''0000c77d'' (Some ''0'')) (detail ''2'' ''0'' ''4048'' ''4040'')
       = test_line
   \<and> (\<exists>ev. fst (ProcessLine test_line 0 test_sys) = (Some \<lparr>EventsVersion = 1, Events = [ev]\<rparr>, None)
         \<and> EntitiesImpacted ev = [\<lparr>EntityType = ''GPU'', EntityValue = ''2''\<rparr>]
         \<and> sublist ''0x0000c77d:0'' (Message ev)
         \<and> sublist ''2:0:4048:4040'' (Message ev))"
proof -
  have h: "numeric ''2''" "hexadecimal ''0000c77d''"
    "case Some ''0'' of None \<Rightarrow> True | Some k \<Rightarrow> numeric k"
    "numeric ''2''" "numeric ''0''" "numeric ''4048''" "numeric ''4040''"
    by (simp_all add: numeric_def hexadecimal_def)
  have l: "signature_line ''2'' (error_code ''0000c77d'' (Some ''0'')) (detail ''2'' ''0'' ''4048'' ''4040'')
      = test_line"
    and c: "error_code ''0000c77d'' (Some ''0'') = ''0x0000c77d:0''"
    and d: "detail ''2'' ''0'' ''4048'' ''4040'' = ''2:0:4048:4040''"
    by (simp_all add: signature_line_def error_code_def sub_index_def detail_def test_line_def
        lit_prefix_def lit_phrase_def)
  have l': "signature_line ''2'' ''0x0000c77d:0'' ''2:0:4048:4040'' = test_line"
    using l by (simp only: c d)
  from signature_line_event [OF h, of 0 test_sys]
  have "\<exists>ev. fst (ProcessLine test_line 0 test_sys) = (Some \<lparr>EventsVersion = 1, Events = [ev]\<rparr>, None)
         \<and> EntitiesImpacted ev = [\<lparr>EntityType = ''GPU'', EntityValue = ''2''\<rparr>]
         \<and> sublist ''0x0000c77d:0'' (Message ev)
         \<and> sublist ''2:0:4048:4040'' (Message ev)"
    unfolding c d l' by blast
  with h l show ?thesis by simp
qed

text \<open>
  C2. Every event that \<open>ProcessLine\<close> emits has exactly one impacted entity, of type
  \<open>GPU\<close>, and exactly one error-code tag, is fatal and not healthy, and recommends the
  restart of the bare-metal host; and no event is emitted on a line the pattern does not
  match.
\<close>

theorem emitted_event_invariant:
  "(fst (fst (ProcessLine line now s)) = Some evs \<longrightarrow>
      (\<forall>ev \<in> set (Events evs).
         (\<exists>n. EntitiesImpacted ev = [\<lparr>EntityType = ''GPU'', EntityValue = n\<rparr>])
         \<and> ErrorCode ev = [''GPU_DRIVER_ERROR'']
         \<and> IsFatal ev \<and> \<not> IsHealthy ev \<and> RecommendedAction ev = RESTART_BM))
   \<and> (FindStringSubmatch reGPUDriverErrorPattern line = [] \<longrightarrow>
        fst (fst (ProcessLine line now s)) = None)"
proof (cases "parseGPUDriverError (handler s) line")
  case None
  then show ?thesis by (simp add: ProcessLine_no_match)
next
  case (Some e)
  then show ?thesis
    using parse_None [of "handler s" line]
    by (auto simp: ProcessLine_match createHealthEventFromError_result)
qed

theorem emitted_event_invariant_witness:
  "(\<exists>evs ev. fst (fst (ProcessLine test_line 0 test_sys)) = Some evs \<and> Events evs = [ev]
       \<and> EntitiesImpacted ev = [\<lparr>EntityType = ''GPU'', EntityValue = ''2''\<rparr>]
       \<and> ErrorCode ev = [''GPU_DRIVER_ERROR'']
       \<and> IsFatal ev \<and> \<not> IsHealthy ev \<and> RecommendedAction ev = RESTART_BM)
   \<and> FindStringSubmatch reGPUDriverErrorPattern other_line = []
   \<and> fst (fst (ProcessLine other_line 0 test_sys)) = None"
proof -
  let ?evs = "fst (createHealthEventFromError
      \<lparr>gpuID = ''2'', errorCode = ''0x0000c77d:0'', errorDetails = ''2:0:4048:4040'',
       message = test_line\<rparr> 0 test_sys)"
  have m: "fst (fst (ProcessLine test_line 0 test_sys)) = Some ?evs"
    by (simp add: ProcessLine_submatches [OF test_line_submatches])
  have ev: "Events ?evs = [hd (Events ?evs)]"
    "EntitiesImpacted (hd (Events ?evs)) = [\<lparr>EntityType = ''GPU'', EntityValue = ''2''\<rparr>]"
    by (simp_all add: createHealthEventFromError_result)
  from emitted_event_invariant [of test_line 0 test_sys ?evs] m
  have "\<forall>ev \<in> set (Events ?evs).
         ErrorCode ev = [''GPU_DRIVER_ERROR'']
         \<and> IsFatal ev \<and> \<not> IsHealthy ev \<and> RecommendedAction ev = RESTART_BM"
    by blast
  then have p: "ErrorCode (hd (Events ?evs)) = [''GPU_DRIVER_ERROR'']
      \<and> IsFatal (hd (Events ?evs)) \<and> \<not> IsHealthy (hd (Events ?evs))
      \<and> RecommendedAction (hd (Events ?evs)) = RESTART_BM"
    using ev(1) by (metis list.set_intros(1))
  from emitted_event_invariant [of other_line 0 test_sys] other_line_submatches
  have n: "fst (fst (ProcessLine other_line 0 test_sys)) = None"
    by blast
  from m ev p n other_line_submatches show ?thesis by blast
qed

text \<open>
  C3. \<open>ProcessLine\<close> never returns a failure: for every line, clock reading and state the
  error result is nil, and the value is either nil, which happens exactly when the pattern
  does not match, or a container that holds exactly one event.
\<close>

theorem ProcessLine_never_fails:
  "snd (fst (ProcessLine line now s)) = None
   \<and> (fst (fst (ProcessLine line now s)) = None
        \<and> FindStringSubmatch reGPUDriverErrorPattern line = []
      \<or> (\<exists>ev. fst (fst (ProcessLine line now s)) = Some \<lparr>EventsVersion = 1, Events = [ev]\<rparr>)
        \<and> FindStringSubmatch reGPUDriverErrorPattern line \<noteq> [])"
proof (cases "parseGPUDriverError (handler s) line")
  case None
  then show ?thesis
    using parse_None [of "handler s" line] by (simp add: ProcessLine_no_match)
next
  case (Some e)
  then have "FindStringSubmatch reGPUDriverErrorPattern line \<noteq> []"
    using parse_None [of "handler s" line] by simp
  with Some show ?thesis
    by (simp add: ProcessLine_match createHealthEventFromError_result)
qed

theorem ProcessLine_never_fails_witness:
  "snd (fst (ProcessLine test_line 0 test_sys)) = None
   \<and> (\<exists>ev. fst (fst (ProcessLine test_line 0 test_sys))
          = Some \<lparr>EventsVersion = 1, Events = [ev]\<rparr>)
   \<and> ProcessLine other_line 0 test_sys = ((None, None), test_sys)"
proof -
  have 1: "FindStringSubmatch reGPUDriverErrorPattern test_line \<noteq> []"
    by (simp add: test_line_submatches)
  have 2: "ProcessLine other_line 0 test_sys = ((None, None), test_sys)"
    by (simp add: ProcessLine_no_match parse_None other_line_submatches)
  show ?thesis
    using ProcessLine_never_fails [of test_line 0 test_sys] 1 2
    by simp
qed

text \<open>
  C4. A line that begins with \<open>nvidia-modeset: ERROR: GPU:<n>:\<close> and diverges afterwards
  yields no event: when the text after the prefix neither goes on as the signature does
  nor contains a complete instance of the structure the pattern asks for, \<open>ProcessLine\<close>
  returns nil and leaves the state as it was.
\<close>

theorem prefix_without_signature_no_event:
  assumes "numeric n" and "\<not> completes_signature rest" and "\<not> contains_signature rest"
  shows "ProcessLine (lit_prefix @ n @ '':'' @ rest) now s = ((None, None), s)"
proof -
  let ?line = "lit_prefix @ n @ '':'' @ rest"
  have "FindStringSubmatch reGPUDriverErrorPattern ?line = []"
  proof (rule ccontr)
    assume "FindStringSubmatch reGPUDriverErrorPattern ?line \<noteq> []"
    from FindStringSubmatch_sound [OF this] obtain p n' cs ws d1 d2 d3 d4 t where
      eq: "?line = p @ lit_prefix @ n' @ lit_phrase @ (''0x'' @ cs) @ ws @ detail d1 d2 d3 d4 @ t"
      and sh: "well_shaped n' cs ws d1 d2 d3 d4"
      by blast
    from prefix_overlap [OF assms(1) eq]
    show False
    proof
      assume "p = []"
      with eq have "n @ CHR '':'' # rest
          = n' @ CHR '':'' # (tl lit_phrase @ (''0x'' @ cs) @ ws @ detail d1 d2 d3 d4 @ t)"
        by (simp add: lit_phrase_def)
      from colon_split_unique [OF _ _ this] assms(1) sh
      have "rest = tl lit_phrase @ (''0x'' @ cs) @ ws @ detail d1 d2 d3 d4 @ t"
        by (simp add: numeric_no_colon well_shaped_def)
      then have "'':'' @ rest = lit_phrase @ (''0x'' @ cs) @ ws @ detail d1 d2 d3 d4 @ t"
        by (simp add: lit_phrase_def)
      with sh have "completes_signature rest"
        unfolding completes_signature_def well_shaped_def by blast
      with assms(2) show False by contradiction
    next
      assume "\<exists>q. rest = q @ lit_prefix @ n' @ lit_phrase @ (''0x'' @ cs) @ ws @ detail d1 d2 d3 d4 @ t"
      with sh have "contains_signature rest"
        unfolding contains_signature_def by blast
      with assms(3) show False by contradiction
    qed
  qed
  then show ?thesis
    by (simp add: ProcessLine_no_match parse_None)
qed

theorem prefix_without_signature_no_event_witness:
  "numeric ''0'' \<and> \<not> completes_signature '' Some other error''
   \<and> \<not> contains_signature '' Some other error''
   \<and> lit_prefix @ ''0'' @ '':'' @ '' Some other error'' = partial_line
   \<and> ProcessLine partial_line 0 test_sys = ((None, None), test_sys)"
proof -
  have n: "numeric ''0''" by (simp add: numeric_def)
  have c: "\<not> completes_signature '' Some other error''"
    by (simp add: completes_signature_def lit_phrase_def)
  have s: "\<not> contains_signature '' Some other error''"
    by (simp add: contains_signature_iff partial_rest_submatches)
  have l: "lit_prefix @ ''0'' @ '':'' @ '' Some other error'' = partial_line"
    by (simp add: lit_prefix_def partial_line_def)
  from prefix_without_signature_no_event [OF n c s, of 0 test_sys] n c s l
  show ?thesis by simp
qed

text \<open>
  C5. On every successful match the message of the event is, in this order: the GPU index,
  the text "nvidia-modeset driver error detected", the extracted error code, the extracted
  detail tuple, the fixed sentences that the driver is not coming up and that the driver
  and device-plugin daemonsets may be crashing, and the original line.
\<close>

theorem message_composition:
  assumes "fst (fst (ProcessLine line now s)) = Some evs"
  shows "\<exists>ev w n c d.
           Events evs = [ev]
         \<and> FindStringSubmatch reGPUDriverErrorPattern line = [w, n, c, d]
         \<and> Message ev =
             ''GPU '' @ n @ '': nvidia-modeset driver error detected. Error code: '' @ c
             @ '', Details: '' @ d
             @ ''. This indicates the GPU driver is not coming up properly. nvidia-driver-daemonset and device-plugin daemonset may be crashing. Original message: ''
             @ line"
proof -
  from assms have "FindStringSubmatch reGPUDriverErrorPattern line \<noteq> []"
    using ProcessLine_None_iff [of line now s] by simp
  from FindStringSubmatch_sound [OF this] obtain w n c d where
    m: "FindStringSubmatch reGPUDriverErrorPattern line = [w, n, c, d]"
    by blast
  from ProcessLine_submatches [OF m, of now s] assms
  have "evs = fst (createHealthEventFromError
        \<lparr>gpuID = n, errorCode = c, errorDetails = d, message = line\<rparr> now s)"
    by simp
  then have "Events evs = [hd (Events evs)] \<and> Message (hd (Events evs)) =
             ''GPU '' @ n @ '': nvidia-modeset driver error detected. Error code: '' @ c
             @ '', Details: '' @ d
             @ ''. This indicates the GPU driver is not coming up properly. nvidia-driver-daemonset and device-plugin daemonset may be crashing. Original message: ''
             @ line"
    by (simp add: createHealthEventFromError_result)
  with m show ?thesis by blast
qed

theorem message_composition_witness:
  "\<exists>evs ev. fst (fst (ProcessLine test_line 0 test_sys)) = Some evs \<and> Events evs = [ev]
     \<and> Message ev = ''GPU 2: nvidia-modeset driver error detected. Error code: 0x0000c77d:0, Details: 2:0:4048:4040. This indicates the GPU driver is not coming up properly. nvidia-driver-daemonset and device-plugin daemonset may be crashing. Original message: nvidia-modeset: ERROR: GPU:2: Error while waiting for GPU progress: 0x0000c77d:0 2:0:4048:4040''"
proof -
  obtain evs where m: "fst (fst (ProcessLine test_line 0 test_sys)) = Some evs"
    by (simp add: ProcessLine_submatches [OF test_line_submatches])
  from message_composition [OF m] obtain ev where
    "Events evs = [ev]"
    "Message ev = ''GPU '' @ ''2'' @ '': nvidia-modeset driver error detected. Error code: '' @ ''0x0000c77d:0''
             @ '', Details: '' @ ''2:0:4048:4040''
             @ ''. This indicates the GPU driver is not coming up properly. nvidia-driver-daemonset and device-plugin daemonset may be crashing. Original message: ''
             @ test_line"
    unfolding test_line_submatches by auto
  with m show ?thesis by (simp add: test_line_def)
qed

text \<open>
  C6, as amended. The matcher succeeds only on a line that carries, in this order and after
  the literal prefix: a numeric GPU index; after the literal phrase, the characters \<open>0x\<close>
  followed by one or more characters that are hexadecimal digits or colons; white space;
  and four numeric fields joined by colons. The three fields of the parsed event are
  exactly these three texts. The second field need not be \<open><hex>[:<digits>]\<close>: the line
  of the counterexample has the code \<open>0x:\<close>, without any hexadecimal digit, and matches.
\<close>

theorem matched_fields_shape:
  assumes "parseGPUDriverError h line = Some e"
  shows "message e = line
       \<and> (\<exists>p cs ws d1 d2 d3 d4 t.
            well_shaped (gpuID e) cs ws d1 d2 d3 d4
          \<and> errorCode e = ''0x'' @ cs
          \<and> errorDetails e = detail d1 d2 d3 d4
          \<and> line = p @ lit_prefix @ gpuID e @ lit_phrase @ errorCode e @ ws @ errorDetails e @ t)"
proof -
  from assms have "FindStringSubmatch reGPUDriverErrorPattern line \<noteq> []"
    using parse_None [of h line] by simp
  from FindStringSubmatch_sound [OF this] obtain p n cs ws d1 d2 d3 d4 t where
    line: "line = p @ lit_prefix @ n @ lit_phrase @ (''0x'' @ cs) @ ws @ detail d1 d2 d3 d4 @ t"
    and sh: "well_shaped n cs ws d1 d2 d3 d4"
    and m: "FindStringSubmatch reGPUDriverErrorPattern line =
             [lit_prefix @ n @ lit_phrase @ (''0x'' @ cs) @ ws @ detail d1 d2 d3 d4, n, ''0x'' @ cs,
              detail d1 d2 d3 d4]"
    by blast
  from parse_Some [OF m, of h] assms
  have e: "e = \<lparr>gpuID = n, errorCode = ''0x'' @ cs, errorDetails = detail d1 d2 d3 d4,
      message = line\<rparr>"
    by simp
  have f: "message e = line" "gpuID e = n" "errorCode e = ''0x'' @ cs"
    "errorDetails e = detail d1 d2 d3 d4"
    by (simp_all add: e)
  have w: "well_shaped (gpuID e) cs ws d1 d2 d3 d4"
    using sh by (simp only: f)
  have l: "line = p @ lit_prefix @ gpuID e @ lit_phrase @ errorCode e @ ws @ errorDetails e @ t"
    using line by (simp only: f)
  from f(1) f(3) f(4) w l show ?thesis by blast
qed

theorem matched_fields_shape_witness:
  "parseGPUDriverError test_handler test_line =
     Some \<lparr>gpuID = ''2'', errorCode = ''0x0000c77d:0'', errorDetails = ''2:0:4048:4040'',
           message = test_line\<rparr>
   \<and> (\<exists>p cs ws d1 d2 d3 d4 t.
            well_shaped ''2'' cs ws d1 d2 d3 d4
          \<and> ''0x0000c77d:0'' = ''0x'' @ cs
          \<and> ''2:0:4048:4040'' = detail d1 d2 d3 d4
          \<and> test_line = p @ lit_prefix @ ''2'' @ lit_phrase @ ''0x0000c77d:0'' @ ws
               @ ''2:0:4048:4040'' @ t)"
proof -
  have p: "parseGPUDriverError test_handler test_line =
     Some \<lparr>gpuID = ''2'', errorCode = ''0x0000c77d:0'', errorDetails = ''2:0:4048:4040'',
           message = test_line\<rparr>"
    by (rule parse_Some [OF test_line_submatches])
  from matched_fields_shape [OF p] p show ?thesis by simp
qed

theorem colon_only_code_counterexample:
  "parseGPUDriverError test_handler
     ''nvidia-modeset: ERROR: GPU:0: Error while waiting for GPU progress: 0x: 1:2:3:4''
   = Some \<lparr>gpuID = ''0'', errorCode = ''0x:'', errorDetails = ''1:2:3:4'',
       message = ''nvidia-modeset: ERROR: GPU:0: Error while waiting for GPU progress: 0x: 1:2:3:4''\<rparr>
   \<and> \<not> is_error_code ''0x:''"
  by (simp add: parseGPUDriverError_def FindStringSubmatch_def prog_def reGPUDriverErrorPattern_def
      perl_d_def perl_s_def hex_colon_def slice_def is_error_code_def hexadecimal_def)

text \<open>
  C7. Classification is deterministic: two calls of \<open>ProcessLine\<close> on the same line with
  the same handler configuration, whatever the clock, the counters and the log hold, have
  the same match or no-match outcome, the same captured fields and the same error result,
  and return events that are equal once the generation time is erased (and equal as they
  are when the clock reads the same).
\<close>

theorem ProcessLine_deterministic:
  assumes "handler s1 = handler s2"
  shows "map_option erase_timestamp (fst (fst (ProcessLine line now1 s1)))
           = map_option erase_timestamp (fst (fst (ProcessLine line now2 s2)))
       \<and> snd (fst (ProcessLine line now1 s1)) = snd (fst (ProcessLine line now2 s2))
       \<and> parseGPUDriverError (handler s1) line = parseGPUDriverError (handler s2) line
       \<and> fst (ProcessLine line now1 s1) = fst (ProcessLine line now1 s2)"
  using assms
  by (cases "parseGPUDriverError (handler s2) line")
     (simp_all add: ProcessLine_no_match ProcessLine_match createHealthEventFromError_result
        erase_timestamp_def)

theorem ProcessLine_deterministic_witness:
  "handler test_sys = handler (snd (ProcessLine test_line 1 test_sys))
   \<and> fst (fst (ProcessLine test_line 1 test_sys)) \<noteq> None
   \<and> map_option erase_timestamp (fst (fst (ProcessLine test_line 1 test_sys)))
       = map_option erase_timestamp
           (fst (fst (ProcessLine test_line 2 (snd (ProcessLine test_line 1 test_sys)))))"
proof -
  have h: "handler test_sys = handler (snd (ProcessLine test_line 1 test_sys))"
    by (simp add: ProcessLine_handler)
  have m: "fst (fst (ProcessLine test_line 1 test_sys)) \<noteq> None"
    by (simp add: ProcessLine_None_iff test_line_submatches)
  have "map_option erase_timestamp (fst (fst (ProcessLine test_line 1 test_sys)))
       = map_option erase_timestamp
           (fst (fst (ProcessLine test_line 2 (snd (ProcessLine test_line 1 test_sys)))))"
    using ProcessLine_deterministic [OF h, of test_line 1 2] by (rule conjunct1)
  with h m show ?thesis by blast
qed

text \<open>
  C8. Constructing the handler always succeeds: for all four configuration values, the
  empty string included, \<open>NewGPUDriverErrorHandler\<close> returns a handler that holds exactly
  these values and a nil error; nothing is validated.
\<close>

theorem NewGPUDriverErrorHandler_always_succeeds:
  "NewGPUDriverErrorHandler n a c k =
     (Some \<lparr>nodeName = n, defaultAgentName = a, defaultComponentClass = c, checkName = k\<rparr>, None)"
  by (simp add: NewGPUDriverErrorHandler_def)

text \<open>
  C9. The configuration is immutable after construction: after any sequence of
  \<open>ProcessLine\<close> calls the handler holds the four values it was built with, each call
  returns what it would have returned as the first call (no state kept across calls has a
  part in the result), and every emitted event carries the values bound at construction.
\<close>

theorem configuration_immutable:
  assumes "NewGPUDriverErrorHandler n a c k = (Some h, e)" and "handler s = h"
  shows "handler (snd (ProcessLines calls s)) = h
       \<and> fst (ProcessLines calls s) = map (\<lambda>(line, now). fst (ProcessLine line now s)) calls
       \<and> (\<forall>r \<in> set (fst (ProcessLines calls s)). \<forall>evs ev.
            fst r = Some evs \<longrightarrow> ev \<in> set (Events evs) \<longrightarrow>
              NodeName ev = n \<and> Agent ev = a \<and> ComponentClass ev = c \<and> CheckName ev = k)"
proof -
  from assms have h: "handler s = \<lparr>nodeName = n, defaultAgentName = a,
      defaultComponentClass = c, checkName = k\<rparr>"
    by (auto simp: NewGPUDriverErrorHandler_def)
  have ev: "NodeName ev = n \<and> Agent ev = a \<and> ComponentClass ev = c \<and> CheckName ev = k"
    if "fst (fst (ProcessLine line now s)) = Some evs" "ev \<in> set (Events evs)"
    for line now evs ev
  proof (cases "parseGPUDriverError (handler s) line")
    case None
    with that show ?thesis by (simp add: ProcessLine_no_match)
  next
    case (Some x)
    with that show ?thesis
      by (auto simp: ProcessLine_match createHealthEventFromError_result h)
  qed
  show ?thesis
    using ProcessLines_results [of calls s] assms(2) ev by auto
qed

theorem configuration_immutable_witness:
  "NewGPUDriverErrorHandler ''test-node'' ''test-agent'' ''GPU'' ''test-check'' = (Some test_handler, None)
   \<and> handler test_sys = test_handler
   \<and> handler (snd (ProcessLines [(test_line, 1), (other_line, 2), (test_line, 3)] test_sys)) = test_handler
   \<and> (\<exists>ev1 ev3. fst (ProcessLines [(test_line, 1), (other_line, 2), (test_line, 3)] test_sys)
         = [(Some \<lparr>EventsVersion = 1, Events = [ev1]\<rparr>, None), (None, None),
            (Some \<lparr>EventsVersion = 1, Events = [ev3]\<rparr>, None)]
       \<and> NodeName ev3 = ''test-node'' \<and> Agent ev3 = ''test-agent''
       \<and> ComponentClass ev3 = ''GPU'' \<and> CheckName ev3 = ''test-check'')"
proof -
  let ?calls = "[(test_line, 1), (other_line, 2), (test_line, 3)]"
  have c: "NewGPUDriverErrorHandler ''test-node'' ''test-agent'' ''GPU'' ''test-check'' = (Some test_handler, None)"
    by (simp add: NewGPUDriverErrorHandler_def test_handler_def)
  have s: "handler test_sys = test_handler"
    by (simp add: test_sys_def)
  note inst = configuration_immutable [OF c s, of ?calls]
  have o: "fst (ProcessLine other_line now test_sys) = (None, None)" for now
    by (simp add: ProcessLine_no_match parse_None other_line_submatches)
  obtain ev1 where r1: "fst (ProcessLine test_line 1 test_sys)
      = (Some \<lparr>EventsVersion = 1, Events = [ev1]\<rparr>, None)"
    by (simp add: ProcessLine_submatches [OF test_line_submatches] createHealthEventFromError_result)
  obtain ev3 where r3: "fst (ProcessLine test_line 3 test_sys)
      = (Some \<lparr>EventsVersion = 1, Events = [ev3]\<rparr>, None)"
    by (simp add: ProcessLine_submatches [OF test_line_submatches] createHealthEventFromError_result)
  from inst have rs: "fst (ProcessLines ?calls test_sys)
      = [(Some \<lparr>EventsVersion = 1, Events = [ev1]\<rparr>, None), (None, None),
         (Some \<lparr>EventsVersion = 1, Events = [ev3]\<rparr>, None)]"
    by (simp add: o r1 r3)
  from inst have "\<forall>r \<in> set (fst (ProcessLines ?calls test_sys)). \<forall>evs ev.
            fst r = Some evs \<longrightarrow> ev \<in> set (Events evs) \<longrightarrow>
              NodeName ev = ''test-node'' \<and> Agent ev = ''test-agent''
              \<and> ComponentClass ev = ''GPU'' \<and> CheckName ev = ''test-check''"
    by blast
  then have "NodeName ev3 = ''test-node'' \<and> Agent ev3 = ''test-agent''
       \<and> ComponentClass ev3 = ''GPU'' \<and> CheckName ev3 = ''test-check''"
    unfolding rs by simp
  with c s inst rs show ?thesis by blast
qed

text \<open>
  C10. The signature is recognized anywhere in the line: if \<open>ProcessLine\<close> emits an event
  on a line, it emits one on that line with any text put before and after it.
\<close>

theorem signature_recognized_anywhere:
  assumes "fst (fst (ProcessLine line now s)) \<noteq> None"
  shows "fst (fst (ProcessLine (p @ line @ t) now' s')) \<noteq> None"
proof -
  from assms have "contains_signature line"
    by (simp add: ProcessLine_None_iff contains_signature_iff)
  then have "contains_signature (p @ line @ t)"
    by (rule contains_signature_context)
  then show ?thesis
    by (simp add: ProcessLine_None_iff contains_signature_iff)
qed

theorem signature_recognized_anywhere_witness:
  "fst (fst (ProcessLine test_line 0 test_sys)) \<noteq> None
   \<and> fst (fst (ProcessLine (''Jan  1 00:00:01 node kernel: '' @ test_line @ '' (repeated)'') 0 test_sys)) \<noteq> None"
proof -
  have m: "fst (fst (ProcessLine test_line 0 test_sys)) \<noteq> None"
    by (simp add: ProcessLine_None_iff test_line_submatches)
  from signature_recognized_anywhere [OF m] m show ?thesis by blast
qed

end
